theory Spec2Isabelle
  imports Main "HOL-Library.AList"
begin

section \<open>The command queue of the bridge server (lib/queue.js)\<close>

text \<open>
  The class \<^verbatim>\<open>CommandQueue\<close> holds two JavaScript \<^verbatim>\<open>Map\<close>s and a configuration.
  A JavaScript \<^verbatim>\<open>Map\<close> iterates in insertion order, so it is an association list with
  distinct keys: \<^verbatim>\<open>get\<close> is \<open>map_of\<close>, \<^verbatim>\<open>set\<close> is \<open>AList.update\<close> (an existing key
  keeps its place, a new key goes to the end), \<^verbatim>\<open>delete\<close> is \<open>AList.delete\<close> and
  \<^verbatim>\<open>size\<close> is the length. Times are the integers \<^verbatim>\<open>Date.now()\<close> returns (milliseconds);
  every call of \<^verbatim>\<open>Date.now()\<close> is a parameter \<open>now\<close> of the operation that makes it, and
  the value of \<^verbatim>\<open>crypto.randomUUID()\<close> is a parameter \<open>uuid\<close> of \<open>addCommand\<close>.
\<close>

subsection \<open>Data\<close>

text \<open>The fields a poll hands out, and the stored command that extends them.\<close>

record polled =
  cmd_id :: string
  cmd_type :: string
  player :: string
  timestamp :: int
  attempts :: int

record command = polled +
  createdAt :: int
  expiresAt :: int

record config =
  maxQueueSize :: int
  commandExpirationMs :: int
  duplicateCooldownMs :: int

record queue =
  commands :: "(string \<times> command) list"
  playerCooldowns :: "(string \<times> int) list"
  config :: config

datatype error = DUPLICATE_COMMAND | QUEUE_FULL | COMMAND_NOT_FOUND

datatype poll_result = NoCommand | HasCommand polled

record status =
  st_queueSize :: int
  st_maxQueueSize :: int
  st_cooldownCount :: int
  st_oldestCommandAge :: int

text \<open>The constructor: both maps empty. The defaults are those of the source.\<close>

definition init :: "config \<Rightarrow> queue" where
  "init cfg = \<lparr>commands = [], playerCooldowns = [], config = cfg\<rparr>"

definition default_config :: config where
  "default_config =
     \<lparr>maxQueueSize = 50, commandExpirationMs = 300000, duplicateCooldownMs = 60000\<rparr>"

subsection \<open>Operations\<close>

text \<open>
  \<^verbatim>\<open>isDuplicateCommand\<close>: \<^verbatim>\<open>if (!lastCommandTime) return false\<close> is taken for a missing
  entry and also for a stored time of 0, which JavaScript holds to be false.
\<close>

definition isDuplicateCommand :: "queue \<Rightarrow> string \<Rightarrow> int \<Rightarrow> bool" where
  "isDuplicateCommand q plr now =
     (case map_of (playerCooldowns q) plr of
        None \<Rightarrow> False
      | Some lastCommandTime \<Rightarrow>
          if lastCommandTime = 0 then False
          else now - lastCommandTime < duplicateCooldownMs (config q))"

text \<open>
  \<^verbatim>\<open>addCommand(type, player, timestamp)\<close>. A success returns the pair
  (commandId, queuePosition).
\<close>

definition addCommand ::
  "string \<Rightarrow> string \<Rightarrow> int \<Rightarrow> int \<Rightarrow> string \<Rightarrow> queue \<Rightarrow> (error + string \<times> int) \<times> queue" where
  "addCommand type plr ts now uuid q =
     (if isDuplicateCommand q plr now then (Inl DUPLICATE_COMMAND, q)
      else if int (length (commands q)) \<ge> maxQueueSize (config q) then (Inl QUEUE_FULL, q)
      else
        let commandId = uuid;
            cmd = \<lparr>cmd_id = commandId, cmd_type = type, player = plr, timestamp = ts,
                   attempts = 0, createdAt = now,
                   expiresAt = now + commandExpirationMs (config q)\<rparr>;
            q1 = q\<lparr>commands := AList.update commandId cmd (commands q)\<rparr>;
            q2 = q1\<lparr>playerCooldowns := AList.update plr now (playerCooldowns q1)\<rparr>
        in (Inr (commandId, int (length (commands q2))), q2))"

text \<open>
  \<^verbatim>\<open>cleanupExpiredCommands\<close>: two loops, each over the entries of one map. An iteration
  deletes at most the entry it is visiting, so walking the entries the map had when the
  loop began visits the same entries as the live iterator does.
\<close>

fun cleanup_commands :: "int \<Rightarrow> (string \<times> command) list \<Rightarrow> queue \<Rightarrow> queue" where
  "cleanup_commands now [] q = q"
| "cleanup_commands now ((commandId, cmd) # es) q =
     cleanup_commands now es
       (if now > expiresAt cmd
        then q\<lparr>commands := AList.delete commandId (commands q),
               playerCooldowns := AList.delete (player cmd) (playerCooldowns q)\<rparr>
        else q)"

fun cleanup_cooldowns :: "int \<Rightarrow> (string \<times> int) list \<Rightarrow> queue \<Rightarrow> queue" where
  "cleanup_cooldowns now [] q = q"
| "cleanup_cooldowns now ((plr, ts) # es) q =
     cleanup_cooldowns now es
       (if now - ts > duplicateCooldownMs (config q)
        then (let hasActiveCommand = list_ex (\<lambda>cmd. player cmd = plr) (map snd (commands q))
              in if \<not> hasActiveCommand
                 then q\<lparr>playerCooldowns := AList.delete plr (playerCooldowns q)\<rparr>
                 else q)
        else q)"

definition cleanupExpiredCommands :: "int \<Rightarrow> queue \<Rightarrow> queue" where
  "cleanupExpiredCommands now q =
     (let q1 = cleanup_commands now (commands q) q
      in cleanup_cooldowns now (playerCooldowns q1) q1)"

text \<open>\<^verbatim>\<open>pollCommand(deviceId)\<close>: sweep, then a copy of five fields of the first command.\<close>

definition pollCommand :: "string option \<Rightarrow> int \<Rightarrow> queue \<Rightarrow> poll_result \<times> queue" where
  "pollCommand deviceId now q =
     (let q1 = cleanupExpiredCommands now q
      in case commands q1 of
           [] \<Rightarrow> (NoCommand, q1)
         | (k, oldestCommand) # rest \<Rightarrow>
             (HasCommand \<lparr>cmd_id = cmd_id oldestCommand, cmd_type = cmd_type oldestCommand,
                          player = player oldestCommand, timestamp = timestamp oldestCommand,
                          attempts = attempts oldestCommand\<rparr>, q1))"

text \<open>
  \<^verbatim>\<open>completeCommand(commandId, success, error)\<close>. A success returns the pair
  (removed, commandId).
\<close>

definition completeCommand ::
  "string \<Rightarrow> bool \<Rightarrow> string option \<Rightarrow> queue \<Rightarrow> (error + bool \<times> string) \<times> queue" where
  "completeCommand commandId success err q =
     (case map_of (commands q) commandId of
        None \<Rightarrow> (Inl COMMAND_NOT_FOUND, q)
      | Some cmd \<Rightarrow>
          let q1 = q\<lparr>commands := AList.delete commandId (commands q)\<rparr>;
              q2 = (if success
                    then q1\<lparr>playerCooldowns := AList.delete (player cmd) (playerCooldowns q1)\<rparr>
                    else q1)
          in (Inr (True, commandId), q2))"

text \<open>\<^verbatim>\<open>getOldestCommandAge\<close> and \<^verbatim>\<open>getStatus\<close>; the latter reads the clock twice.\<close>

definition getOldestCommandAge :: "int \<Rightarrow> queue \<Rightarrow> int" where
  "getOldestCommandAge now q =
     (case commands q of [] \<Rightarrow> 0 | (k, oldestCommand) # rest \<Rightarrow> now - createdAt oldestCommand)"

definition getStatus :: "int \<Rightarrow> int \<Rightarrow> queue \<Rightarrow> status \<times> queue" where
  "getStatus now now2 q =
     (let q1 = cleanupExpiredCommands now q
      in (\<lparr>st_queueSize = int (length (commands q1)),
           st_maxQueueSize = maxQueueSize (config q1),
           st_cooldownCount = int (length (playerCooldowns q1)),
           st_oldestCommandAge = getOldestCommandAge now2 q1\<rparr>, q1))"

definition clear :: "queue \<Rightarrow> queue" where
  "clear q = q\<lparr>commands := [], playerCooldowns := []\<rparr>"

subsection \<open>Runs of the queue\<close>

text \<open>
  Every state the singleton can be in is the result of a finite list of calls on the
  freshly constructed queue; the timer of \<^verbatim>\<open>startCleanup\<close> contributes the sweeps.
\<close>

datatype op =
    Submit string string int int string
  | Poll "string option" int
  | Complete string bool "string option"
  | Status int int
  | Sweep int
  | Clear

fun step :: "op \<Rightarrow> queue \<Rightarrow> queue" where
  "step (Submit type plr ts now uuid) q = snd (addCommand type plr ts now uuid q)"
| "step (Poll deviceId now) q = snd (pollCommand deviceId now q)"
| "step (Complete commandId success err) q = snd (completeCommand commandId success err q)"
| "step (Status now now2) q = snd (getStatus now now2 q)"
| "step (Sweep now) q = cleanupExpiredCommands now q"
| "step Clear q = clear q"

fun exec :: "op list \<Rightarrow> queue \<Rightarrow> queue" where
  "exec [] q = q"
| "exec (x # xs) q = exec xs (step x q)"

subsection \<open>Scenarios of several calls\<close>

text \<open>
  A submission is the five values one call of \<open>addCommand\<close> consumes: the three
  arguments, the clock reading and the generated identifier.
\<close>

record submission =
  sub_type :: string
  sub_player :: string
  sub_timestamp :: int
  sub_now :: int
  sub_uuid :: string

text \<open>The command a successful submission stores, under the configuration \<open>cfg\<close>.\<close>

definition entry_of :: "config \<Rightarrow> submission \<Rightarrow> string \<times> command" where
  "entry_of cfg s =
     (sub_uuid s,
      \<lparr>cmd_id = sub_uuid s, cmd_type = sub_type s, player = sub_player s,
       timestamp = sub_timestamp s, attempts = 0, createdAt = sub_now s,
       expiresAt = sub_now s + commandExpirationMs cfg\<rparr>)"

definition snapshot :: "command \<Rightarrow> polled" where
  "snapshot c = \<lparr>cmd_id = cmd_id c, cmd_type = cmd_type c, player = player c,
                 timestamp = timestamp c, attempts = attempts c\<rparr>"

text \<open>Submissions one after the other, with their results in order.\<close>

fun addCommands :: "submission list \<Rightarrow> queue \<Rightarrow> (error + string \<times> int) list \<times> queue" where
  "addCommands [] q = ([], q)"
| "addCommands (s # ss) q =
     (let (r, q1) = addCommand (sub_type s) (sub_player s) (sub_timestamp s) (sub_now s)
                      (sub_uuid s) q;
          (rs, q2) = addCommands ss q1
      in (r # rs, q2))"

text \<open>
  Poll-then-complete cycles, as the consumer runs them: each cycle polls at its own time
  and acknowledges the command it was given, reporting \<open>success\<close>.
\<close>

fun poll_complete_cycles :: "(int \<times> bool) list \<Rightarrow> queue \<Rightarrow> poll_result list \<times> queue" where
  "poll_complete_cycles [] q = ([], q)"
| "poll_complete_cycles ((now, success) # cs) q =
     (let (r, q1) = pollCommand None now q;
          q2 = (case r of
                  NoCommand \<Rightarrow> q1
                | HasCommand c \<Rightarrow> snd (completeCommand (cmd_id c) success None q1));
          (rs, q3) = poll_complete_cycles cs q2
      in (r # rs, q3))"


section \<open>The completion endpoint (api/complete.js) and the key check (lib/auth.js)\<close>

text \<open>
  The values a parsed JSON body can hold in a field; \<open>JUndefined\<close> is a missing field
  (or a missing body, which the handler replaces by an empty object), \<open>JOther\<close> any
  object or array.
\<close>

datatype json = JUndefined | JNull | JBool bool | JNum int | JStr string | JOther

fun typeof :: "json \<Rightarrow> string" where
  "typeof JUndefined = ''undefined''"
| "typeof JNull = ''object''"
| "typeof (JBool b) = ''boolean''"
| "typeof (JNum n) = ''number''"
| "typeof (JStr s) = ''string''"
| "typeof JOther = ''object''"

fun truthy :: "json \<Rightarrow> bool" where
  "truthy JUndefined = False"
| "truthy JNull = False"
| "truthy (JBool b) = b"
| "truthy (JNum n) = (n \<noteq> 0)"
| "truthy (JStr s) = (s \<noteq> [])"
| "truthy JOther = True"

text \<open>An environment variable or a header: a string or undefined.\<close>

fun truthy_str :: "string option \<Rightarrow> bool" where
  "truthy_str None = False"
| "truthy_str (Some s) = (s \<noteq> [])"

text \<open>
  \<^verbatim>\<open>String.prototype.trim\<close> strips white space and line terminators from both ends.
  A character of a string is a code unit below 256; the white space and the line
  terminators of JavaScript in that range are U+0009 to U+000D, U+0020 and the
  no-break space U+00A0.
\<close>

definition is_space :: "char \<Rightarrow> bool" where
  "is_space c =
     (c \<in> set [CHR 0x09, CHR 0x0A, CHR 0x0B, CHR 0x0C, CHR 0x0D, CHR 0x20, CHR 0xA0])"

definition trim :: "string \<Rightarrow> string" where
  "trim s = rev (dropWhile is_space (rev (dropWhile is_space s)))"

record request =
  req_method :: string
  req_api_key :: "string option"
  body_commandId :: json
  body_success :: json
  body_error :: json

text \<open>
  The bodies the endpoint sends: an error with its code, or the acknowledgement with
  success, removed, commandId and the optional message. The message texts of error
  bodies are left out.
\<close>

datatype body =
    ErrorBody string
  | CompleteBody bool bool string "string option"

record response =
  res_status :: nat
  res_body :: body

text \<open>
  \<^verbatim>\<open>createApiKeyMiddleware\<close>: the result is the response the middleware sends, or
  \<open>None\<close> when it calls \<^verbatim>\<open>next()\<close>.
\<close>

definition createApiKeyMiddleware ::
  "string option \<Rightarrow> bool \<Rightarrow> string option \<Rightarrow> response option" where
  "createApiKeyMiddleware apiKey required providedKey =
     (if \<not> truthy_str apiKey \<and> \<not> required then None
      else if required \<and> \<not> truthy_str apiKey
        then Some \<lparr>res_status = 500, res_body = ErrorBody ''SERVER_MISCONFIGURED''\<rparr>
      else if required \<and> \<not> truthy_str providedKey
        then Some \<lparr>res_status = 401, res_body = ErrorBody ''MISSING_API_KEY''\<rparr>
      else if truthy_str providedKey \<and> providedKey \<noteq> apiKey
        then Some \<lparr>res_status = 401, res_body = ErrorBody ''INVALID_API_KEY''\<rparr>
      else None)"

text \<open>The default instance: the key of the environment, required when it is set.\<close>

definition apiKeyMiddleware :: "string option \<Rightarrow> string option \<Rightarrow> response option" where
  "apiKeyMiddleware env_API_KEY providedKey =
     createApiKeyMiddleware env_API_KEY (truthy_str env_API_KEY) providedKey"

text \<open>
  The handler of \<^verbatim>\<open>POST /api/complete\<close>. The queue never throws, so the
  \<^verbatim>\<open>catch\<close> branch is not a branch of the model.
\<close>

definition complete_handler :: "string option \<Rightarrow> request \<Rightarrow> queue \<Rightarrow> response \<times> queue" where
  "complete_handler env_API_KEY req q =
     (case apiKeyMiddleware env_API_KEY (req_api_key req) of
        Some r \<Rightarrow> (r, q)
      | None \<Rightarrow>
          if req_method req \<noteq> ''POST''
            then (\<lparr>res_status = 405, res_body = ErrorBody ''METHOD_NOT_ALLOWED''\<rparr>, q)
          else if \<not> truthy (body_commandId req) \<or> typeof (body_success req) \<noteq> ''boolean''
            then (\<lparr>res_status = 400, res_body = ErrorBody ''MISSING_REQUIRED_FIELDS''\<rparr>, q)
          else
            (case (body_commandId req, body_success req) of
               (JStr commandId, JBool success) \<Rightarrow>
                 if length (trim commandId) = 0
                   then (\<lparr>res_status = 400, res_body = ErrorBody ''INVALID_COMMAND_ID''\<rparr>, q)
                 else if body_error req \<noteq> JNull \<and> body_error req \<noteq> JUndefined
                         \<and> typeof (body_error req) \<noteq> ''string''
                   then (\<lparr>res_status = 400, res_body = ErrorBody ''INVALID_ERROR_FIELD''\<rparr>, q)
                 else
                   (let err = (case body_error req of JStr m \<Rightarrow> Some m | _ \<Rightarrow> None);
                        (result, q') = completeCommand (trim commandId) success err q
                    in case result of
                         Inl e \<Rightarrow>
                           if e = COMMAND_NOT_FOUND
                           then (\<lparr>res_status = 200,
                                  res_body = CompleteBody True False (trim commandId)
                                    (Some ''Command already completed or not found'')\<rparr>, q')
                           else (\<lparr>res_status = 500, res_body = ErrorBody ''COMPLETION_ERROR''\<rparr>, q')
                       | Inr (removed, cid) \<Rightarrow>
                           (\<lparr>res_status = 200, res_body = CompleteBody True removed cid None\<rparr>, q'))
             | _ \<Rightarrow> (\<lparr>res_status = 400, res_body = ErrorBody ''INVALID_COMMAND_ID''\<rparr>, q)))"

section \<open>Invariant of the queue\<close>

text \<open>
  What every stored command satisfies in every run: the keys of the store are distinct
  and each is the identifier of its command, no command has been attempted, and every
  command expires one expiration window after it was created.
\<close>

definition wf_queue :: "queue \<Rightarrow> bool" where
  "wf_queue q =
     (distinct (map fst (commands q)) \<and>
      (\<forall>e\<in>set (commands q).
          cmd_id (snd e) = fst e \<and> attempts (snd e) = 0 \<and>
          expiresAt (snd e) = createdAt (snd e) + commandExpirationMs (config q)))"

text \<open>
  The duplicate test in the words of the specification: a cooldown entry exists for the
  player, and less than the cooldown window has passed since its time.
\<close>

definition in_cooldown :: "queue \<Rightarrow> string \<Rightarrow> int \<Rightarrow> bool" where
  "in_cooldown q plr now =
     (case map_of (playerCooldowns q) plr of
        None \<Rightarrow> False
      | Some t \<Rightarrow> now - t < duplicateCooldownMs (config q))"

section \<open>Example states\<close>

text \<open>
  A configuration with room for one command, the state of a queue after the single
  submission of a kick of Alice at time 1000 under the identifier id1, and an
  acknowledgement request for that identifier, padded with a no-break space and blanks.
\<close>

definition small_config :: config where
  "small_config =
     \<lparr>maxQueueSize = 1, commandExpirationMs = 300000, duplicateCooldownMs = 60000\<rparr>"

definition alice_cmd :: command where
  "alice_cmd = \<lparr>cmd_id = ''id1'', cmd_type = ''kick'', player = ''Alice'', timestamp = 1,
       attempts = 0, createdAt = 1000, expiresAt = 301000\<rparr>"

definition q_alice :: "config \<Rightarrow> queue" where
  "q_alice cfg = \<lparr>commands = [(''id1'', alice_cmd)], playerCooldowns = [(''Alice'', 1000)], config = cfg\<rparr>"

definition ack_request :: request where
  "ack_request = \<lparr>req_method = ''POST'', req_api_key = Some ''secret'',
                   body_commandId = JStr (CHR 0xA0 # '' id1 ''), body_success = JBool True,
                   body_error = JNull\<rparr>"

definition three_subs :: "submission list" where
  "three_subs =
     [\<lparr>sub_type = ''kick'', sub_player = ''Alice'', sub_timestamp = 1, sub_now = 1000,
       sub_uuid = ''id1''\<rparr>,
      \<lparr>sub_type = ''ban'', sub_player = ''Bob'', sub_timestamp = 2, sub_now = 1001,
       sub_uuid = ''id2''\<rparr>,
      \<lparr>sub_type = ''kick'', sub_player = ''Carol'', sub_timestamp = 3, sub_now = 1001,
       sub_uuid = ''id3''\<rparr>]"

text \<open>
  Two accepted submissions during which the clock was set back: the second command is
  created at 1000, the first at 2000.
\<close>

definition backwards_subs :: "submission list" where
  "backwards_subs =
     [\<lparr>sub_type = ''kick'', sub_player = ''Alice'', sub_timestamp = 1, sub_now = 2000,
       sub_uuid = ''id1''\<rparr>,
      \<lparr>sub_type = ''ban'', sub_player = ''Bob'', sub_timestamp = 2, sub_now = 1000,
       sub_uuid = ''id2''\<rparr>]"

section \<open>Calls that leave the head of the store in place\<close>


section \<open>Identifiers returned in a run\<close>


section \<open>Basic facts\<close>

subsection \<open>The sweep as a filter\<close>

lemma cleanup_commands_config [simp]: "config (cleanup_commands now es q) = config q"
  by (induction es arbitrary: q) auto

lemma cleanup_commands_commands:
  "commands (cleanup_commands now es q) =
     filter (\<lambda>e. \<forall>x\<in>set es. now > expiresAt (snd x) \<longrightarrow> fst x \<noteq> fst e) (commands q)"
proof (induction es arbitrary: q)
  case Nil
  then show ?case by simp
next
  case (Cons a es)
  obtain k c where a: "a = (k, c)" by (cases a)
  show ?case
    unfolding a by (auto simp: Cons.IH AList.delete_eq intro!: filter_cong)
qed

lemma cleanup_commands_cooldowns:
  "playerCooldowns (cleanup_commands now es q) =
     filter (\<lambda>e. \<forall>x\<in>set es. now > expiresAt (snd x) \<longrightarrow> player (snd x) \<noteq> fst e) (playerCooldowns q)"
proof (induction es arbitrary: q)
  case Nil
  then show ?case by simp
next
  case (Cons a es)
  obtain k c where a: "a = (k, c)" by (cases a)
  show ?case
    unfolding a by (auto simp: Cons.IH AList.delete_eq intro!: filter_cong)
qed

lemma cleanup_cooldowns_config [simp]: "config (cleanup_cooldowns now es q) = config q"
  by (induction es arbitrary: q) (auto simp: Let_def)

lemma cleanup_cooldowns_commands [simp]: "commands (cleanup_cooldowns now es q) = commands q"
  by (induction es arbitrary: q) (auto simp: Let_def)

lemma cleanup_cooldowns_cooldowns:
  "playerCooldowns (cleanup_cooldowns now es q) =
     filter (\<lambda>e. \<forall>x\<in>set es. now - snd x > duplicateCooldownMs (config q)
                          \<and> \<not> list_ex (\<lambda>cmd. player cmd = fst x) (map snd (commands q))
                       \<longrightarrow> fst x \<noteq> fst e)
       (playerCooldowns q)"
proof (induction es arbitrary: q)
  case Nil
  then show ?case by simp
next
  case (Cons a es)
  obtain p t where a: "a = (p, t)" by (cases a)
  show ?case
    unfolding a by (auto simp: Cons.IH AList.delete_eq Let_def intro!: filter_cong)
qed

lemma cleanupExpiredCommands_config [simp]: "config (cleanupExpiredCommands now q) = config q"
  by (simp add: cleanupExpiredCommands_def Let_def)

lemma cleanupExpiredCommands_commands:
  assumes "distinct (map fst (commands q))"
  shows "commands (cleanupExpiredCommands now q) = filter (\<lambda>e. \<not> now > expiresAt (snd e)) (commands q)"
proof -
  have "commands (cleanupExpiredCommands now q) =
     filter (\<lambda>e. \<forall>x\<in>set (commands q). now > expiresAt (snd x) \<longrightarrow> fst x \<noteq> fst e) (commands q)"
    by (simp add: cleanupExpiredCommands_def Let_def cleanup_commands_commands)
  also have "\<dots> = filter (\<lambda>e. \<not> now > expiresAt (snd e)) (commands q)"
    using assms by (intro filter_cong refl) (auto dest: eq_key_imp_eq_value)
  finally show ?thesis .
qed

lemma cleanupExpiredCommands_unexpired:
  "e \<in> set (commands (cleanupExpiredCommands now q)) \<Longrightarrow> now \<le> expiresAt (snd e) \<and> e \<in> set (commands q)"
  by (fastforce simp: cleanupExpiredCommands_def Let_def cleanup_commands_commands)

lemma wf_queue_init: "wf_queue (init cfg)"
  by (simp add: wf_queue_def init_def)

lemma in_update_cases: "e \<in> set (AList.update k v al) \<Longrightarrow> e = (k, v) \<or> e \<in> set al"
  by (induction al) (auto split: if_splits)

lemma in_delete_D: "e \<in> set (AList.delete k al) \<Longrightarrow> e \<in> set al \<and> fst e \<noteq> k"
  by (auto simp: AList.delete_eq)

lemma addCommand_config [simp]: "config (snd (addCommand type plr ts now uuid q)) = config q"
  by (simp add: addCommand_def Let_def)

lemma addCommand_wf: "wf_queue q \<Longrightarrow> wf_queue (snd (addCommand type plr ts now uuid q))"
  unfolding wf_queue_def addCommand_def Let_def
  by (auto simp: distinct_update dest!: in_update_cases)

lemma cleanupExpiredCommands_wf: "wf_queue q \<Longrightarrow> wf_queue (cleanupExpiredCommands now q)"
  unfolding wf_queue_def
  by (auto simp: cleanupExpiredCommands_commands distinct_map_filter)

lemma pollCommand_state [simp]: "snd (pollCommand d now q) = cleanupExpiredCommands now q"
  by (simp add: pollCommand_def Let_def split: list.splits prod.splits)

lemma getStatus_state [simp]: "snd (getStatus now now2 q) = cleanupExpiredCommands now q"
  by (simp add: getStatus_def Let_def)

lemma completeCommand_config [simp]: "config (snd (completeCommand k b e q)) = config q"
  by (simp add: completeCommand_def Let_def split: option.splits)

lemma completeCommand_commands:
  "commands (snd (completeCommand k b e q)) = AList.delete k (commands q)"
  by (auto simp: completeCommand_def Let_def map_of_eq_None_iff split: option.splits)

lemma completeCommand_wf: "wf_queue q \<Longrightarrow> wf_queue (snd (completeCommand k b e q))"
  unfolding wf_queue_def
  by (auto simp: completeCommand_commands distinct_delete dest!: in_delete_D)

lemma step_config [simp]: "config (step x q) = config q"
  by (cases x) (simp_all add: clear_def)

lemma step_wf: "wf_queue q \<Longrightarrow> wf_queue (step x q)"
  by (cases x) (simp_all add: addCommand_wf cleanupExpiredCommands_wf completeCommand_wf,
      simp add: clear_def wf_queue_def)

lemma exec_config [simp]: "config (exec xs q) = config q"
  by (induction xs arbitrary: q) simp_all

lemma exec_wf: "wf_queue q \<Longrightarrow> wf_queue (exec xs q)"
  by (induction xs arbitrary: q) (simp_all add: step_wf)

lemma reachable_wf: "wf_queue (exec xs (init cfg))"
  by (simp add: exec_wf wf_queue_init)

lemma init_config [simp]: "config (init cfg) = cfg"
  by (simp add: init_def)

subsection \<open>Insertion and the example states\<close>

lemma exec_alice_default:
  "exec [Submit ''kick'' ''Alice'' 1 1000 ''id1''] (init default_config) = q_alice default_config"
  by (simp add: addCommand_def isDuplicateCommand_def init_def default_config_def Let_def
      q_alice_def alice_cmd_def)

lemma exec_alice_small:
  "exec [Submit ''kick'' ''Alice'' 1 1000 ''id1''] (init small_config) = q_alice small_config"
  by (simp add: addCommand_def isDuplicateCommand_def init_def small_config_def Let_def
      q_alice_def alice_cmd_def)

lemma update_fresh: "k \<notin> fst ` set al \<Longrightarrow> AList.update k v al = al @ [(k, v)]"
  by (induction al) auto

lemma pollCommand_result:
  "fst (pollCommand d now q) =
     (case commands (cleanupExpiredCommands now q) of
        [] \<Rightarrow> NoCommand | e # rest \<Rightarrow> HasCommand (snapshot (snd e)))"
  by (simp add: pollCommand_def Let_def snapshot_def split: list.splits prod.splits)

lemma getStatus_queueSize:
  "st_queueSize (fst (getStatus now now2 q)) = int (length (commands (cleanupExpiredCommands now q)))"
  by (simp add: getStatus_def Let_def)

lemma length_delete_less: "k \<in> fst ` set al \<Longrightarrow> length (AList.delete k al) < length al"
  by (induction al) (force simp: less_Suc_eq_le length_delete_le)+

lemma addCommand_success_state:
  assumes "addCommand type plr ts now uuid q = (Inr r, q')"
  shows "\<not> isDuplicateCommand q plr now"
    and "int (length (commands q)) < maxQueueSize (config q)"
    and "commands q' = AList.update uuid
           \<lparr>cmd_id = uuid, cmd_type = type, player = plr, timestamp = ts, attempts = 0,
            createdAt = now, expiresAt = now + commandExpirationMs (config q)\<rparr> (commands q)"
    and "playerCooldowns q' = AList.update plr now (playerCooldowns q)"
    and "config q' = config q"
  using assms by (auto simp: addCommand_def Let_def split: if_splits)

lemma addCommand_Inr:
  assumes "\<not> isDuplicateCommand q plr now"
      and "int (length (commands q)) < maxQueueSize (config q)"
      and "uuid \<notin> fst ` set (commands q)"
  shows "addCommand type plr ts now uuid q =
           (Inr (uuid, int (length (commands q)) + 1),
            q\<lparr>commands := commands q @
                   [(uuid, \<lparr>cmd_id = uuid, cmd_type = type, player = plr, timestamp = ts,
                            attempts = 0, createdAt = now,
                            expiresAt = now + commandExpirationMs (config q)\<rparr>)],
              playerCooldowns := AList.update plr now (playerCooldowns q)\<rparr>)"
  using assms by (simp add: addCommand_def Let_def update_fresh)

lemma completeCommand_Some:
  assumes "map_of (commands q) commandId = Some cmd"
  shows "completeCommand commandId success err q =
           (Inr (True, commandId),
            q\<lparr>commands := AList.delete commandId (commands q),
              playerCooldowns := (if success then AList.delete (player cmd) (playerCooldowns q)
                                  else playerCooldowns q)\<rparr>)"
  using assms by (simp add: completeCommand_def Let_def)



lemma entry_of_simps [simp]:
  "fst (entry_of cfg s) = sub_uuid s"
  "cmd_id (snd (entry_of cfg s)) = sub_uuid s"
  "createdAt (snd (entry_of cfg s)) = sub_now s"
  "expiresAt (snd (entry_of cfg s)) = sub_now s + commandExpirationMs cfg"
  by (simp_all add: entry_of_def)

lemma addCommands_all_accepted:
  assumes "addCommands subs q0 = (rs, q)"
      and "\<forall>r\<in>set rs. \<not> isl r"
      and "distinct (map sub_uuid subs)"
      and "set (map sub_uuid subs) \<inter> fst ` set (commands q0) = {}"
  shows "commands q = commands q0 @ map (entry_of (config q0)) subs \<and> config q = config q0"
  using assms
proof (induction subs arbitrary: q0 rs q)
  case Nil
  then show ?case by simp
next
  case (Cons s ss)
  obtain r q1 where a: "addCommand (sub_type s) (sub_player s) (sub_timestamp s) (sub_now s)
                          (sub_uuid s) q0 = (r, q1)"
    by (cases "addCommand (sub_type s) (sub_player s) (sub_timestamp s) (sub_now s)
                          (sub_uuid s) q0")
  obtain rs' q' where b: "addCommands ss q1 = (rs', q')"
    by (cases "addCommands ss q1")
  from Cons.prems(1) a b have rs: "rs = r # rs'" and q: "q = q'"
    by simp_all
  from Cons.prems(2) rs obtain v where r: "r = Inr v"
    by (cases r) auto
  note st = addCommand_success_state[OF a[unfolded r]]
  have fresh: "sub_uuid s \<notin> fst ` set (commands q0)"
    using Cons.prems(4) by auto
  have c1: "commands q1 = commands q0 @ [entry_of (config q0) s]"
    by (simp add: st(3) update_fresh[OF fresh] entry_of_def)
  have "set (map sub_uuid ss) \<inter> fst ` set (commands q1) = {}"
    using Cons.prems(3,4) by (auto simp: c1)
  from Cons.IH[OF b _ _ this] Cons.prems(2,3) rs
  have "commands q' = commands q1 @ map (entry_of (config q1)) ss \<and> config q' = config q1"
    by simp
  then show ?case
    by (simp add: q c1 st(5))
qed

lemma poll_complete_cycles_fifo:
  assumes "distinct (map fst (commands q))"
      and "\<forall>e\<in>set (commands q). cmd_id (snd e) = fst e"
      and "\<forall>c\<in>set cs. \<forall>e\<in>set (commands q). fst c \<le> expiresAt (snd e)"
      and "length cs \<le> length (commands q)"
  shows "fst (poll_complete_cycles cs q)
           = map (\<lambda>e. HasCommand (snapshot (snd e))) (take (length cs) (commands q)) \<and>
         commands (snd (poll_complete_cycles cs q)) = drop (length cs) (commands q)"
  using assms
proof (induction cs arbitrary: q)
  case Nil
  then show ?case by simp
next
  case (Cons c cs)
  obtain now b where c: "c = (now, b)" by (cases c)
  from Cons.prems(4) obtain e rest where l: "commands q = e # rest"
    by (cases "commands q") auto
  let ?q1 = "cleanupExpiredCommands now q"
  have "commands ?q1 = filter (\<lambda>x. \<not> now > expiresAt (snd x)) (commands q)"
    by (rule cleanupExpiredCommands_commands[OF Cons.prems(1)])
  also have "\<dots> = commands q"
    using Cons.prems(3) by (auto simp: c intro!: filter_True)
  finally have c1: "commands ?q1 = e # rest"
    by (simp add: l)
  have r: "pollCommand None now q = (HasCommand (snapshot (snd e)), ?q1)"
    using pollCommand_result[of None now q] pollCommand_state[of None now q]
    by (simp add: c1 prod_eq_iff)
  have k: "cmd_id (snapshot (snd e)) = fst e"
    using Cons.prems(2) by (simp add: l snapshot_def)
  let ?q2 = "snd (completeCommand (fst e) b None ?q1)"
  have "fst e \<notin> fst ` set rest"
    using Cons.prems(1) by (simp add: l)
  then have c2: "commands ?q2 = rest"
    by (simp add: completeCommand_commands c1)
  have "fst (poll_complete_cycles cs ?q2)
           = map (\<lambda>e. HasCommand (snapshot (snd e))) (take (length cs) (commands ?q2)) \<and>
         commands (snd (poll_complete_cycles cs ?q2)) = drop (length cs) (commands ?q2)"
    using Cons.prems by (intro Cons.IH) (auto simp: c2 l)
  then show ?case
    by (simp add: c r k l c2 split_beta Let_def)
qed




subsection \<open>Stored identifiers have been returned\<close>






lemma exec_append: "exec (xs @ ys) q = exec ys (exec xs q)"
  by (induction xs arbitrary: q) simp_all


section \<open>Properties\<close>

text \<open>
  C1. For every state of the queue and every identifier that names no pending command
  (one never issued, or one already removed by an earlier completion or by expiration),
  the complete operation answers with a success and removed = false, and not with an
  error. The operation is the endpoint on top of \<open>completeCommand\<close>: the queue reports
  COMMAND_NOT_FOUND and leaves its state alone, and the handler turns that report into
  the status 200 with success = true and removed = false. The request is one that
  passes the key check and the handler's validation of its fields.
\<close>

theorem complete_unknown_id_is_success:
  assumes "apiKeyMiddleware env_API_KEY (req_api_key req) = None"
      and "req_method req = ''POST''"
      and "body_commandId req = JStr s" and "trim s \<noteq> []"
      and "body_success req = JBool success"
      and "body_error req \<in> {JUndefined, JNull} \<union> range JStr"
      and "map_of (commands q) (trim s) = None"
  shows "complete_handler env_API_KEY req q =
           (\<lparr>res_status = 200,
             res_body = CompleteBody True False (trim s)
                          (Some ''Command already completed or not found'')\<rparr>, q)"
proof -
  have "s \<noteq> []" using assms(4) by (auto simp: trim_def)
  moreover have "completeCommand (trim s) success e q = (Inl COMMAND_NOT_FOUND, q)" for e
    using assms(7) by (simp add: completeCommand_def)
  ultimately show ?thesis
    using assms by (auto simp: complete_handler_def Let_def)
qed

theorem complete_unknown_id_is_success_witness:
  "apiKeyMiddleware (Some ''secret'') (req_api_key ack_request) = None \<and>
   req_method ack_request = ''POST'' \<and>
   body_commandId ack_request = JStr (CHR 0xA0 # '' id1 '') \<and> trim (CHR 0xA0 # '' id1 '') = ''id1'' \<and>
   body_success ack_request = JBool True \<and>
   fst (complete_handler (Some ''secret'') ack_request (q_alice default_config))
     = \<lparr>res_status = 200, res_body = CompleteBody True True ''id1'' None\<rparr> \<and>
   map_of (commands (snd (complete_handler (Some ''secret'') ack_request (q_alice default_config))))
     (trim (CHR 0xA0 # '' id1 '')) = None \<and>
   fst (complete_handler (Some ''secret'') ack_request
         (snd (complete_handler (Some ''secret'') ack_request (q_alice default_config))))
     = \<lparr>res_status = 200,
        res_body = CompleteBody True False ''id1''
                     (Some ''Command already completed or not found'')\<rparr>"
proof -
  have t: "trim (CHR 0xA0 # '' id1 '') = ''id1''"
    by (simp add: trim_def is_space_def)
  have a: "apiKeyMiddleware (Some ''secret'') (req_api_key ack_request) = None"
    by (simp add: apiKeyMiddleware_def createApiKeyMiddleware_def ack_request_def)
  have m: "req_method ack_request = ''POST''"
    and i: "body_commandId ack_request = JStr (CHR 0xA0 # '' id1 '')"
    and s: "body_success ack_request = JBool True"
    and e: "body_error ack_request \<in> {JUndefined, JNull} \<union> range JStr"
    and be: "body_error ack_request = JNull"
    by (simp_all add: ack_request_def)
  have n: "trim (CHR 0xA0 # '' id1 '') \<noteq> []"
    by (simp add: t)
  have first: "complete_handler (Some ''secret'') ack_request (q_alice default_config)
     = (\<lparr>res_status = 200, res_body = CompleteBody True True ''id1'' None\<rparr>,
        init default_config)"
    by (simp add: complete_handler_def a m i s t be completeCommand_def
        q_alice_def alice_cmd_def init_def Let_def)
  have g: "map_of (commands (init default_config)) (trim (CHR 0xA0 # '' id1 '')) = None"
    by (simp add: init_def)
  from complete_unknown_id_is_success[OF a m i n s e g] first a m i s t g
  show ?thesis by simp
qed

text \<open>
  C2. A pending command would be out of sight of poll and status exactly from the
  instant createdAt + expiration window on. At that instant itself it is not: the sweep
  removes a command when now > expiresAt, so at now = createdAt + expiration window the
  command of Alice, created at 1000 under the default window of 300000, is still
  returned by poll and still counted by status.
\<close>

theorem expiration_boundary_counterexample:
  "exec [Submit ''kick'' ''Alice'' 1 1000 ''id1''] (init default_config) = q_alice default_config \<and>
   (301000::int) \<ge> createdAt alice_cmd + commandExpirationMs (config (q_alice default_config)) \<and>
   fst (pollCommand None 301000 (q_alice default_config)) = HasCommand (snapshot alice_cmd) \<and>
   st_queueSize (fst (getStatus 301000 301000 (q_alice default_config))) = 1"
  unfolding exec_alice_default
  by (simp add: pollCommand_def getStatus_def cleanupExpiredCommands_def getOldestCommandAge_def
      q_alice_def alice_cmd_def default_config_def snapshot_def Let_def)

text \<open>
  C2, as the code has it. In every run of the queue, a pending command is still in the
  store that poll and status look at exactly when now \<le> createdAt + expiration window:
  poll returns the first such command and status counts them. It is gone once
  now > createdAt + expiration window, and not before.
\<close>

theorem expiration_boundary:
  assumes "e \<in> set (commands (exec ops (init cfg)))"
  shows "(e \<in> set (commands (snd (pollCommand d now (exec ops (init cfg)))))
            \<longleftrightarrow> now \<le> createdAt (snd e) + commandExpirationMs cfg) \<and>
         (e \<in> set (commands (snd (getStatus now now2 (exec ops (init cfg)))))
            \<longleftrightarrow> now \<le> createdAt (snd e) + commandExpirationMs cfg) \<and>
         fst (pollCommand d now (exec ops (init cfg))) =
           (case filter (\<lambda>x. now \<le> createdAt (snd x) + commandExpirationMs cfg)
                   (commands (exec ops (init cfg))) of
              [] \<Rightarrow> NoCommand
            | x # rest \<Rightarrow> HasCommand (snapshot (snd x))) \<and>
         st_queueSize (fst (getStatus now now2 (exec ops (init cfg)))) =
           int (length (filter (\<lambda>x. now \<le> createdAt (snd x) + commandExpirationMs cfg)
                          (commands (exec ops (init cfg)))))"
proof -
  let ?q = "exec ops (init cfg)"
  have wf: "wf_queue ?q" by (rule reachable_wf)
  then have d: "distinct (map fst (commands ?q))"
    and x: "\<And>x. x \<in> set (commands ?q) \<Longrightarrow>
                expiresAt (snd x) = createdAt (snd x) + commandExpirationMs cfg"
    by (simp_all add: wf_queue_def)
  have "commands (cleanupExpiredCommands now ?q)
          = filter (\<lambda>x. \<not> now > expiresAt (snd x)) (commands ?q)"
    by (rule cleanupExpiredCommands_commands[OF d])
  also have "\<dots> = filter (\<lambda>x. now \<le> createdAt (snd x) + commandExpirationMs cfg) (commands ?q)"
    by (intro filter_cong refl) (auto simp: x)
  finally have c: "commands (cleanupExpiredCommands now ?q)
          = filter (\<lambda>x. now \<le> createdAt (snd x) + commandExpirationMs cfg) (commands ?q)" .
  show ?thesis
    using assms by (simp add: pollCommand_result getStatus_queueSize c)
qed

theorem expiration_boundary_witness:
  "(''id1'', alice_cmd) \<in> set (commands (exec [Submit ''kick'' ''Alice'' 1 1000 ''id1''] (init default_config))) \<and>
   (''id1'', alice_cmd) \<in> set (commands (snd (pollCommand None 301000
       (exec [Submit ''kick'' ''Alice'' 1 1000 ''id1''] (init default_config))))) \<and>
   (''id1'', alice_cmd) \<notin> set (commands (snd (pollCommand None 301001
       (exec [Submit ''kick'' ''Alice'' 1 1000 ''id1''] (init default_config))))) \<and>
   fst (pollCommand None 301001
       (exec [Submit ''kick'' ''Alice'' 1 1000 ''id1''] (init default_config))) = NoCommand"
proof -
  let ?ops = "[Submit ''kick'' ''Alice'' 1 1000 ''id1'']"
  have h: "(''id1'', alice_cmd) \<in> set (commands (exec ?ops (init default_config)))"
    unfolding exec_alice_default by (simp add: q_alice_def)
  have c: "createdAt (snd (''id1'', alice_cmd)) + commandExpirationMs default_config = 301000"
    by (simp add: alice_cmd_def default_config_def)
  have l: "commands (exec ?ops (init default_config)) = [(''id1'', alice_cmd)]"
    unfolding exec_alice_default by (simp add: q_alice_def)
  from expiration_boundary[OF h, of None 301000 301000]
       expiration_boundary[OF h, of None 301001 301001] h
  show ?thesis unfolding c l by (simp add: alice_cmd_def default_config_def)
qed

text \<open>
  C3. Every operation, submit included, would only ever see commands with
  now < expiresAt. Submit runs no sweep: in the queue of capacity one, the command of
  Alice expired at 301000, and at 310000, before any poll, status or timer sweep has
  run, a submit for Bob is refused with QUEUE_FULL because the capacity check counts it.
\<close>

theorem sweep_absent_counterexample:
  "exec [Submit ''kick'' ''Alice'' 1 1000 ''id1''] (init small_config) = q_alice small_config \<and>
   commands (q_alice small_config) = [(''id1'', alice_cmd)] \<and>
   expiresAt alice_cmd < 310000 \<and>
   int (length (commands (q_alice small_config))) = maxQueueSize (config (q_alice small_config)) \<and>
   addCommand ''ban'' ''Bob'' 2 310000 ''id2'' (q_alice small_config)
     = (Inl QUEUE_FULL, q_alice small_config)"
  unfolding exec_alice_small
  by (simp add: addCommand_def isDuplicateCommand_def q_alice_def alice_cmd_def small_config_def)

text \<open>
  C3, as the code has it. Poll and status sweep before they look: every command in the
  store they leave satisfies now \<le> expiresAt, and the command a poll returns is one of
  them. Submit and complete do not sweep, so what they see is the store as the last
  sweep (of a poll, a status or the timer) left it.
\<close>

theorem swept_store_unexpired:
  "(\<forall>e\<in>set (commands (snd (pollCommand d now q))). now \<le> expiresAt (snd e)) \<and>
   (\<forall>e\<in>set (commands (snd (getStatus now now2 q))). now \<le> expiresAt (snd e)) \<and>
   (\<forall>c. fst (pollCommand d now q) = HasCommand c \<longrightarrow>
        (\<exists>e\<in>set (commands q). c = snapshot (snd e) \<and> now \<le> expiresAt (snd e)))"
proof -
  have "\<exists>e\<in>set (commands q). c = snapshot (snd e) \<and> now \<le> expiresAt (snd e)"
    if "fst (pollCommand d now q) = HasCommand c" for c
  proof (cases "commands (cleanupExpiredCommands now q)")
    case Nil
    with that show ?thesis by (simp add: pollCommand_result)
  next
    case (Cons e rest)
    then have "e \<in> set (commands (cleanupExpiredCommands now q))" by simp
    from cleanupExpiredCommands_unexpired[OF this] that Cons
    show ?thesis by (auto simp: pollCommand_result)
  qed
  then show ?thesis
    by (auto dest: cleanupExpiredCommands_unexpired)
qed

theorem swept_store_unexpired_witness:
  "(''id1'', alice_cmd) \<in> set (commands (snd (pollCommand None 2000 (q_alice default_config)))) \<and>
   (''id1'', alice_cmd) \<in> set (commands (snd (getStatus 2000 2001 (q_alice default_config)))) \<and>
   fst (pollCommand None 2000 (q_alice default_config)) = HasCommand (snapshot alice_cmd) \<and>
   2000 \<le> expiresAt (snd (''id1'', alice_cmd))"
proof -
  have s: "cleanupExpiredCommands 2000 (q_alice default_config) = q_alice default_config"
    by (simp add: cleanupExpiredCommands_def q_alice_def alice_cmd_def default_config_def Let_def)
  have a: "(''id1'', alice_cmd) \<in> set (commands (snd (pollCommand None 2000 (q_alice default_config))))"
    and b: "(''id1'', alice_cmd) \<in> set (commands (snd (getStatus 2000 2001 (q_alice default_config))))"
    by (simp_all add: s, simp_all add: q_alice_def)
  have c: "fst (pollCommand None 2000 (q_alice default_config)) = HasCommand (snapshot alice_cmd)"
    by (simp add: pollCommand_result s, simp add: q_alice_def)
  from swept_store_unexpired[of None 2000 "q_alice default_config" 2001] a b c
  show ?thesis by blast
qed

text \<open>
  C4. After N accepted submissions for N distinct players, each poll would return the
  pending command with the smallest createdAt. The store is ordered by insertion, not
  by createdAt: when the clock is set back between two submissions, the poll returns the
  command submitted first, created at 2000, while the command submitted second, created
  at 1000, is pending.
\<close>

theorem fifo_smallest_createdAt_counterexample:
  "fst (addCommands backwards_subs (init default_config))
     = [Inr (''id1'', 1), Inr (''id2'', 2)] \<and>
   commands (snd (addCommands backwards_subs (init default_config)))
     = [(''id1'', \<lparr>cmd_id = ''id1'', cmd_type = ''kick'', player = ''Alice'', timestamp = 1,
                  attempts = 0, createdAt = 2000, expiresAt = 302000\<rparr>),
        (''id2'', \<lparr>cmd_id = ''id2'', cmd_type = ''ban'', player = ''Bob'', timestamp = 2,
                  attempts = 0, createdAt = 1000, expiresAt = 301000\<rparr>)] \<and>
   fst (pollCommand None 3000 (snd (addCommands backwards_subs (init default_config))))
     = HasCommand \<lparr>cmd_id = ''id1'', cmd_type = ''kick'', player = ''Alice'', timestamp = 1,
                   attempts = 0\<rparr> \<and>
   (1000::int) < 2000"
  by (simp add: backwards_subs_def addCommand_def isDuplicateCommand_def init_def
      default_config_def pollCommand_def cleanupExpiredCommands_def Let_def split_beta)

text \<open>
  C4, as the code has it. Take N submissions onto an empty store that are all accepted
  (which is what their N distinct players are for), with identifiers that differ, and N
  poll-then-complete cycles at times at which none of the commands has expired. The
  polls return the commands in the order of submission. After the first n cycles the
  store holds the remaining N - n commands in their order of submission: a removal does
  not reorder what remains. The (n+1)-th poll returns the head of that store, the
  command submitted first among those pending; it is the pending command with the
  smallest createdAt whenever the clock readings of the submissions did not decrease.
\<close>

theorem fifo_order:
  assumes "commands q0 = []"
      and "addCommands subs q0 = (rs, q)"
      and "\<forall>r\<in>set rs. \<not> isl r"
      and "distinct (map sub_uuid subs)"
      and "length cs = length subs"
      and "\<forall>c\<in>set cs. \<forall>s\<in>set subs. fst c \<le> sub_now s + commandExpirationMs (config q0)"
  shows "fst (poll_complete_cycles cs q)
           = map (\<lambda>s. HasCommand (snapshot (snd (entry_of (config q0) s)))) subs \<and>
         (\<forall>n\<le>length subs.
            fst (poll_complete_cycles (take n cs) q)
              = map (\<lambda>s. HasCommand (snapshot (snd (entry_of (config q0) s)))) (take n subs) \<and>
            commands (snd (poll_complete_cycles (take n cs) q))
              = drop n (map (entry_of (config q0)) subs)) \<and>
         (\<forall>n<length subs. \<exists>e rest.
            commands (snd (poll_complete_cycles (take n cs) q)) = e # rest \<and>
            fst (poll_complete_cycles cs q) ! n = HasCommand (snapshot (snd e)) \<and>
            e = entry_of (config q0) (subs ! n) \<and>
            (sorted (map sub_now subs) \<longrightarrow>
               (\<forall>x\<in>set (e # rest). createdAt (snd e) \<le> createdAt (snd x))))"
proof -
  let ?es = "map (entry_of (config q0)) subs"
  have "commands q = commands q0 @ ?es \<and> config q = config q0"
    using assms(1-4) by (intro addCommands_all_accepted[of subs q0 rs q]) simp_all
  then have cq: "commands q = ?es"
    by (simp add: assms(1))
  have k: "map fst ?es = map sub_uuid subs"
    by (simp add: comp_def)
  have d: "distinct (map fst (commands q))"
    by (simp only: cq k assms(4))
  have i: "\<forall>e\<in>set (commands q). cmd_id (snd e) = fst e"
    by (auto simp: cq)
  have cyc: "fst (poll_complete_cycles (take n cs) q)
              = map (\<lambda>s. HasCommand (snapshot (snd (entry_of (config q0) s)))) (take n subs) \<and>
            commands (snd (poll_complete_cycles (take n cs) q)) = drop n ?es"
    if "n \<le> length subs" for n
  proof -
    have t: "\<forall>c\<in>set (take n cs). \<forall>e\<in>set (commands q). fst c \<le> expiresAt (snd e)"
      using assms(6) by (auto simp: cq dest: in_set_takeD)
    have l: "length (take n cs) \<le> length (commands q)"
      using that assms(5) by (simp add: cq)
    have n: "length (take n cs) = n"
      using that assms(5) by simp
    from poll_complete_cycles_fifo[OF d i t l, unfolded n]
    show ?thesis
      by (simp add: cq take_map comp_def)
  qed
  have full: "fst (poll_complete_cycles cs q)
           = map (\<lambda>s. HasCommand (snapshot (snd (entry_of (config q0) s)))) subs"
    using cyc[of "length subs"] assms(5) by simp
  have mono: "createdAt (snd (entry_of (config q0) (subs ! n))) \<le> createdAt (snd e)"
    if s: "sorted (map sub_now subs)" and n: "n < length subs" and e: "e \<in> set (drop n ?es)"
    for n e
  proof -
    from e obtain j where j: "j < length subs - n" and ej: "e = ?es ! (n + j)"
      by (auto simp: in_set_conv_nth)
    have "map sub_now subs ! n \<le> map sub_now subs ! (n + j)"
      using s j n by (intro sorted_nth_mono) simp_all
    then show ?thesis
      using j n by (simp add: ej)
  qed
  have head: "\<exists>e rest.
            commands (snd (poll_complete_cycles (take n cs) q)) = e # rest \<and>
            fst (poll_complete_cycles cs q) ! n = HasCommand (snapshot (snd e)) \<and>
            e = entry_of (config q0) (subs ! n) \<and>
            (sorted (map sub_now subs) \<longrightarrow>
               (\<forall>x\<in>set (e # rest). createdAt (snd e) \<le> createdAt (snd x)))"
    if n: "n < length subs" for n
  proof -
    let ?e = "entry_of (config q0) (subs ! n)"
    have dr: "drop n ?es = ?e # drop (Suc n) ?es"
      using n by (simp add: Cons_nth_drop_Suc[symmetric])
    have a: "commands (snd (poll_complete_cycles (take n cs) q)) = ?e # drop (Suc n) ?es"
      using cyc[of n] n dr by simp
    have b: "fst (poll_complete_cycles cs q) ! n = HasCommand (snapshot (snd ?e))"
      using n by (simp add: full)
    have c: "\<forall>x\<in>set (?e # drop (Suc n) ?es). createdAt (snd ?e) \<le> createdAt (snd x)"
      if "sorted (map sub_now subs)"
      using mono[OF that n] unfolding dr[symmetric] by blast
    from a b c show ?thesis by blast
  qed
  show ?thesis
    using full cyc head by blast
qed

theorem fifo_order_witness:
  "commands (init default_config) = [] \<and>
   fst (addCommands three_subs (init default_config))
     = [Inr (''id1'', 1), Inr (''id2'', 2), Inr (''id3'', 3)] \<and>
   distinct (map sub_uuid three_subs) \<and>
   sorted (map sub_now three_subs) \<and>
   fst (poll_complete_cycles [(2000, True), (2001, False), (2002, True)]
         (snd (addCommands three_subs (init default_config))))
     = [HasCommand \<lparr>cmd_id = ''id1'', cmd_type = ''kick'', player = ''Alice'', timestamp = 1,
                    attempts = 0\<rparr>,
        HasCommand \<lparr>cmd_id = ''id2'', cmd_type = ''ban'', player = ''Bob'', timestamp = 2,
                    attempts = 0\<rparr>,
        HasCommand \<lparr>cmd_id = ''id3'', cmd_type = ''kick'', player = ''Carol'', timestamp = 3,
                    attempts = 0\<rparr>] \<and>
   commands (snd (poll_complete_cycles [(2000, True), (2001, False), (2002, True)]
         (snd (addCommands three_subs (init default_config))))) = []"
proof -
  let ?cs = "[(2000, True), (2001, False), (2002, True)] :: (int \<times> bool) list"
  let ?rs = "[Inr (''id1'', 1), Inr (''id2'', 2), Inr (''id3'', 3)] :: (error + string \<times> int) list"
  have a: "commands (init default_config) = []"
    by (simp add: init_def)
  have r: "fst (addCommands three_subs (init default_config)) = ?rs"
    by (simp add: three_subs_def addCommand_def isDuplicateCommand_def init_def
        default_config_def Let_def split_beta)
  have b: "addCommands three_subs (init default_config)
             = (?rs, snd (addCommands three_subs (init default_config)))"
    by (simp add: r[symmetric])
  have c: "\<forall>r\<in>set ?rs. \<not> isl r"
    by simp
  have d: "distinct (map sub_uuid three_subs)"
    and e: "length ?cs = length three_subs"
    and s: "sorted (map sub_now three_subs)"
    and f: "\<forall>c\<in>set ?cs. \<forall>s\<in>set three_subs.
               fst c \<le> sub_now s + commandExpirationMs (config (init default_config))"
    by (simp_all add: three_subs_def default_config_def)
  have m: "map (\<lambda>s. HasCommand (snapshot (snd (entry_of (config (init default_config)) s))))
             three_subs
     = [HasCommand \<lparr>cmd_id = ''id1'', cmd_type = ''kick'', player = ''Alice'', timestamp = 1,
                    attempts = 0\<rparr>,
        HasCommand \<lparr>cmd_id = ''id2'', cmd_type = ''ban'', player = ''Bob'', timestamp = 2,
                    attempts = 0\<rparr>,
        HasCommand \<lparr>cmd_id = ''id3'', cmd_type = ''kick'', player = ''Carol'', timestamp = 3,
                    attempts = 0\<rparr>]"
    by (simp add: three_subs_def entry_of_def snapshot_def)
  have n: "length three_subs = 3"
    by (simp add: three_subs_def)
  note T = fifo_order[OF a b c d e f]
  from T have full: "fst (poll_complete_cycles ?cs (snd (addCommands three_subs (init default_config))))
        = map (\<lambda>s. HasCommand (snapshot (snd (entry_of (config (init default_config)) s))))
            three_subs"
    by blast
  from T have "commands (snd (poll_complete_cycles (take 3 ?cs)
                   (snd (addCommands three_subs (init default_config)))))
        = drop 3 (map (entry_of (config (init default_config))) three_subs)"
    unfolding n by blast
  then have empty: "commands (snd (poll_complete_cycles ?cs
                   (snd (addCommands three_subs (init default_config))))) = []"
    by (simp add: n)
  from a r d s full[unfolded m] empty show ?thesis
    by blast
qed

text \<open>
  C5. The duplicate check comes before the capacity check. A player who has a cooldown
  entry younger than the cooldown window is refused with DUPLICATE_COMMAND whatever the
  number of pending commands, also when the store is full; QUEUE_FULL is the result
  exactly when the player is not in cooldown and the pending count has reached the
  configured maximum. Entry times are readings of the clock, which are not 0.
\<close>

theorem duplicate_check_precedes_capacity_check:
  assumes "map_of (playerCooldowns q) plr \<noteq> Some 0"
  shows "(in_cooldown q plr now \<longrightarrow>
            addCommand type plr ts now uuid q = (Inl DUPLICATE_COMMAND, q)) \<and>
         (fst (addCommand type plr ts now uuid q) = Inl QUEUE_FULL \<longleftrightarrow>
            \<not> in_cooldown q plr now \<and> int (length (commands q)) \<ge> maxQueueSize (config q))"
  using assms
  by (auto simp: addCommand_def isDuplicateCommand_def in_cooldown_def Let_def
      split: option.splits if_splits)

theorem duplicate_check_precedes_capacity_check_witness:
  "map_of (playerCooldowns (q_alice small_config)) ''Alice'' \<noteq> Some 0 \<and>
   in_cooldown (q_alice small_config) ''Alice'' 2000 \<and>
   int (length (commands (q_alice small_config))) \<ge> maxQueueSize (config (q_alice small_config)) \<and>
   addCommand ''ban'' ''Alice'' 2 2000 ''id2'' (q_alice small_config)
     = (Inl DUPLICATE_COMMAND, q_alice small_config) \<and>
   \<not> in_cooldown (q_alice small_config) ''Bob'' 2000 \<and>
   fst (addCommand ''ban'' ''Bob'' 2 2000 ''id2'' (q_alice small_config)) = Inl QUEUE_FULL"
proof -
  have a: "map_of (playerCooldowns (q_alice small_config)) ''Alice'' \<noteq> Some 0"
    and b: "map_of (playerCooldowns (q_alice small_config)) ''Bob'' \<noteq> Some 0"
    and c: "in_cooldown (q_alice small_config) ''Alice'' 2000"
    and d: "\<not> in_cooldown (q_alice small_config) ''Bob'' 2000"
    and e: "int (length (commands (q_alice small_config))) \<ge> maxQueueSize (config (q_alice small_config))"
    by (simp_all add: q_alice_def small_config_def in_cooldown_def)
  from duplicate_check_precedes_capacity_check[OF a, of 2000 "''ban''" 2 "''id2''"]
       duplicate_check_precedes_capacity_check[OF b, of 2000 "''ban''" 2 "''id2''"]
       a c d e
  show ?thesis by blast
qed

text \<open>
  C6. A submit that fails, with DUPLICATE_COMMAND or with QUEUE_FULL, leaves the queue as
  it was: the command store and the cooldown table after the call are those before it.
\<close>

theorem addCommand_failure_no_effect:
  "fst (addCommand type plr ts now uuid q) = Inl e \<Longrightarrow>
     snd (addCommand type plr ts now uuid q) = q \<and> (e = DUPLICATE_COMMAND \<or> e = QUEUE_FULL)"
  by (auto simp: addCommand_def Let_def split: if_splits)

theorem addCommand_failure_no_effect_witness:
  "fst (addCommand ''ban'' ''Bob'' 2 2000 ''id2'' (q_alice small_config)) = Inl QUEUE_FULL \<and>
   snd (addCommand ''ban'' ''Bob'' 2 2000 ''id2'' (q_alice small_config)) = q_alice small_config"
proof -
  have h: "fst (addCommand ''ban'' ''Bob'' 2 2000 ''id2'' (q_alice small_config)) = Inl QUEUE_FULL"
    by (simp add: addCommand_def isDuplicateCommand_def q_alice_def small_config_def)
  from addCommand_failure_no_effect[OF h] h show ?thesis by simp
qed

text \<open>
  C7. Completing an identifier that names a pending command removes that command from
  the store. The cooldown entry of its player is deleted when success is true and the
  cooldown table is left as it is when success is false. The error argument changes
  neither the result nor the state.
\<close>

theorem completeCommand_pending:
  assumes "map_of (commands q) commandId = Some cmd"
  shows "fst (completeCommand commandId success err q) = Inr (True, commandId) \<and>
         commands (snd (completeCommand commandId success err q))
           = AList.delete commandId (commands q) \<and>
         map_of (commands (snd (completeCommand commandId success err q))) commandId = None \<and>
         playerCooldowns (snd (completeCommand commandId success err q))
           = (if success then AList.delete (player cmd) (playerCooldowns q)
              else playerCooldowns q) \<and>
         (success \<longrightarrow>
            map_of (playerCooldowns (snd (completeCommand commandId success err q))) (player cmd)
              = None) \<and>
         config (snd (completeCommand commandId success err q)) = config q \<and>
         completeCommand commandId success err q = completeCommand commandId success err' q"
  using assms by (simp add: completeCommand_def Let_def delete_conv')

theorem completeCommand_pending_witness:
  "map_of (commands (q_alice default_config)) ''id1'' = Some alice_cmd \<and>
   fst (completeCommand ''id1'' True None (q_alice default_config)) = Inr (True, ''id1'') \<and>
   commands (snd (completeCommand ''id1'' True None (q_alice default_config))) = [] \<and>
   playerCooldowns (snd (completeCommand ''id1'' True None (q_alice default_config))) = [] \<and>
   commands (snd (completeCommand ''id1'' False (Some ''offline'') (q_alice default_config))) = [] \<and>
   playerCooldowns (snd (completeCommand ''id1'' False (Some ''offline'') (q_alice default_config)))
     = [(''Alice'', 1000)]"
proof -
  have h: "map_of (commands (q_alice default_config)) ''id1'' = Some alice_cmd"
    by (simp add: q_alice_def)
  have p: "player alice_cmd = ''Alice''"
    by (simp add: alice_cmd_def)
  have c: "commands (q_alice default_config) = [(''id1'', alice_cmd)]"
    and d: "playerCooldowns (q_alice default_config) = [(''Alice'', 1000)]"
    by (simp_all add: q_alice_def)
  from completeCommand_pending[OF h, of True None None]
       completeCommand_pending[OF h, of False "Some ''offline''" "Some ''offline''"] h
  show ?thesis unfolding p c d by simp
qed








text \<open>
  C10. A player can have two commands pending at once: after an accepted submission at
  time tA, a second one for the same player at a time tB with tB - tA at least the
  cooldown window is accepted too (given room in the store and an unused identifier),
  and the single cooldown entry of the player then holds tB. Completing the earlier
  command with success = true deletes that entry although the later command wrote it
  and is still pending. A third submission for the player, which would have been refused
  as a duplicate inside the window after tB, is accepted at any time tC afterwards.
\<close>

theorem early_completion_clears_later_cooldown:
  assumes first: "addCommand typeA plr tsA tA idA q = (Inr rA, qA)"
      and later: "duplicateCooldownMs (config q) \<le> tB - tA"
      and room: "int (length (commands qA)) < maxQueueSize (config q)"
      and fresh: "idB \<notin> fst ` set (commands qA)"
      and second: "addCommand typeB plr tsB tB idB qA = (rB, qB)"
      and ack: "completeCommand idA True err qB = (rC, qC)"
  shows "rB = Inr (idB, int (length (commands qB))) \<and>
         (\<exists>cA cB. map_of (commands qB) idA = Some cA \<and> player cA = plr \<and>
                  map_of (commands qB) idB = Some cB \<and> player cB = plr \<and>
                  createdAt cB = tB \<and> idA \<noteq> idB \<and>
                  map_of (commands qC) idB = Some cB) \<and>
         map_of (playerCooldowns qB) plr = Some tB \<and>
         (tB \<noteq> 0 \<and> tC - tB < duplicateCooldownMs (config q) \<longrightarrow>
            fst (addCommand typeC plr tsC tC idC qB) = Inl DUPLICATE_COMMAND) \<and>
         rC = Inr (True, idA) \<and>
         map_of (playerCooldowns qC) plr = None \<and>
         \<not> isl (fst (addCommand typeC plr tsC tC idC qC))"
proof -
  note s1 = addCommand_success_state[OF first]
  let ?cA = "\<lparr>cmd_id = idA, cmd_type = typeA, player = plr, timestamp = tsA, attempts = 0,
            createdAt = tA, expiresAt = tA + commandExpirationMs (config q)\<rparr>"
  let ?cB = "\<lparr>cmd_id = idB, cmd_type = typeB, player = plr, timestamp = tsB, attempts = 0,
            createdAt = tB, expiresAt = tB + commandExpirationMs (config q)\<rparr>"
  have m1: "map_of (commands qA) idA = Some ?cA"
    by (simp add: s1(3) update_conv')
  then have in1: "idA \<in> fst ` set (commands qA)"
    by (metis domI dom_map_of_conv_image_fst)
  with fresh have ne: "idA \<noteq> idB" by auto
  have cd1: "map_of (playerCooldowns qA) plr = Some tA"
    by (simp add: s1(4) update_conv')
  have nd: "\<not> isDuplicateCommand qA plr tB"
    using later by (simp add: isDuplicateCommand_def cd1 s1(5))
  have room': "int (length (commands qA)) < maxQueueSize (config qA)"
    using room by (simp add: s1(5))
  note acc = addCommand_Inr[OF nd room' fresh, of typeB tsB]
  have q2c: "commands qB = commands qA @ [(idB, ?cB)]"
    and q2d: "playerCooldowns qB = AList.update plr tB (playerCooldowns qA)"
    and q2cfg: "config qB = config q"
    and rB: "rB = Inr (idB, int (length (commands qB)))"
    using acc second by (auto simp: s1(5))
  have m21: "map_of (commands qB) idA = Some ?cA"
    by (simp add: q2c m1)
  have m22: "map_of (commands qB) idB = Some ?cB"
    using fresh by (simp add: q2c map_add_def map_of_eq_None_iff[THEN iffD2])
  have cd2: "map_of (playerCooldowns qB) plr = Some tB"
    by (simp add: q2d update_conv')
  note cp = completeCommand_Some[OF m21, of True err]
  have rC: "rC = Inr (True, idA)"
    and q3c: "commands qC = AList.delete idA (commands qB)"
    and cd3: "map_of (playerCooldowns qC) plr = None"
    and q3cfg: "config qC = config q"
    using cp ack by (auto simp: q2cfg delete_conv')
  have m32: "map_of (commands qC) idB = Some ?cB"
    using ne by (simp add: q3c m22)
  have "idA \<in> fst ` set (commands qB)"
    using in1 by (auto simp: q2c)
  then have "length (commands qC) < length (commands qB)"
    unfolding q3c by (rule length_delete_less)
  then have room3: "int (length (commands qC)) < maxQueueSize (config qC)"
    using room by (simp add: q2c q3cfg)
  have nd3: "\<not> isDuplicateCommand qC plr tC"
    by (simp add: isDuplicateCommand_def cd3)
  have ok3: "\<not> isl (fst (addCommand typeC plr tsC tC idC qC))"
    using nd3 room3 by (simp add: addCommand_def Let_def)
  have dup: "fst (addCommand typeC plr tsC tC idC qB) = Inl DUPLICATE_COMMAND"
    if "tB \<noteq> 0" "tC - tB < duplicateCooldownMs (config q)"
    using that by (simp add: addCommand_def isDuplicateCommand_def cd2 q2cfg)
  show ?thesis
    using rB m21 m22 m32 ne cd2 dup rC cd3 ok3 by simp
qed

theorem early_completion_clears_later_cooldown_witness:
  "addCommand ''kick'' ''Alice'' 1 1000 ''id1'' (init default_config)
     = (Inr (''id1'', 1), q_alice default_config) \<and>
   duplicateCooldownMs (config (init default_config)) \<le> 61000 - 1000 \<and>
   ''id2'' \<notin> fst ` set (commands (q_alice default_config)) \<and>
   fst (addCommand ''ban'' ''Alice'' 2 61000 ''id2'' (q_alice default_config)) = Inr (''id2'', 2) \<and>
   map_of (playerCooldowns (snd (addCommand ''ban'' ''Alice'' 2 61000 ''id2'' (q_alice default_config))))
     ''Alice'' = Some 61000 \<and>
   61001 - 61000 < duplicateCooldownMs (config (init default_config)) \<and>
   fst (addCommand ''kick'' ''Alice'' 3 61001 ''id3''
         (snd (addCommand ''ban'' ''Alice'' 2 61000 ''id2'' (q_alice default_config))))
     = Inl DUPLICATE_COMMAND \<and>
   fst (completeCommand ''id1'' True None
         (snd (addCommand ''ban'' ''Alice'' 2 61000 ''id2'' (q_alice default_config))))
     = Inr (True, ''id1'') \<and>
   \<not> isl (fst (addCommand ''kick'' ''Alice'' 3 61001 ''id3''
         (snd (completeCommand ''id1'' True None
           (snd (addCommand ''ban'' ''Alice'' 2 61000 ''id2'' (q_alice default_config)))))))"
proof -
  let ?qB = "snd (addCommand ''ban'' ''Alice'' 2 61000 ''id2'' (q_alice default_config))"
  have a: "addCommand ''kick'' ''Alice'' 1 1000 ''id1'' (init default_config)
     = (Inr (''id1'', 1), q_alice default_config)"
    by (simp add: addCommand_def isDuplicateCommand_def init_def default_config_def Let_def
      q_alice_def alice_cmd_def)
  have b: "duplicateCooldownMs (config (init default_config)) \<le> 61000 - 1000"
    and b': "61001 - 61000 < duplicateCooldownMs (config (init default_config))"
    by (simp_all add: default_config_def)
  have c: "int (length (commands (q_alice default_config))) < maxQueueSize (config (init default_config))"
    by (simp add: q_alice_def default_config_def)
  have d: "''id2'' \<notin> fst ` set (commands (q_alice default_config))"
    by (simp add: q_alice_def)
  have e: "addCommand ''ban'' ''Alice'' 2 61000 ''id2'' (q_alice default_config)
             = (fst (addCommand ''ban'' ''Alice'' 2 61000 ''id2'' (q_alice default_config)), ?qB)"
    by simp
  have f: "completeCommand ''id1'' True None ?qB
             = (fst (completeCommand ''id1'' True None ?qB), snd (completeCommand ''id1'' True None ?qB))"
    by simp
  have l: "int (length (commands ?qB)) = 2"
    by (simp add: addCommand_def isDuplicateCommand_def default_config_def Let_def
      q_alice_def alice_cmd_def)
  from early_completion_clears_later_cooldown[OF a b c d e f, of 61001 "''kick''" 3 "''id3''"]
       a b b' d
  show ?thesis unfolding l by simp
qed

end
